theory Spec2Isabelle
  imports Complex_Main
begin

section \<open>Dates and numbers\<close>

text \<open>
  A JavaScript \<open>Date\<close> holds a time value: an integral number of milliseconds since the
  epoch, of magnitude at most 8.64e15, or NaN (an "Invalid Date"). The code computes on
  dates through \<open>Math.max\<close>, \<open>new Date(number)\<close>, the comparison \<open>a > b\<close>,
  \<open>getTime() === getTime()\<close> and the subtraction in the sort comparator.
\<close>

datatype date = Invalid | Valid int

datatype number = NaN | NegInfinity | Num int

text \<open>The exceptions of the program: the built-in ones, and the \<open>Error\<close> objects it throws
  itself (\<open>HTTP <status>\<close>, \<open>Discord webhook failed: <status>\<close>, and the scraper's).\<close>

datatype exn =
    SyntaxError | TypeError | RangeError | ReferenceError
  | HttpError nat | WebhookFailed nat | ScrapeError string

definition maxTime :: int where
  "maxTime = 8640000000000000"

text \<open>A \<open>Date\<close> read as a number (\<open>valueOf\<close>, which \<open>Math.max\<close> and the comparisons apply).\<close>

fun valueOf :: "date \<Rightarrow> number" where
  "valueOf Invalid = NaN"
| "valueOf (Valid t) = Num t"

text \<open>\<open>new Date(x)\<close> for a number \<open>x\<close>: the time value is clipped to the range of dates.\<close>

fun new_Date :: "number \<Rightarrow> date" where
  "new_Date (Num t) = (if \<bar>t\<bar> \<le> maxTime then Valid t else Invalid)"
| "new_Date NaN = Invalid"
| "new_Date NegInfinity = Invalid"

fun max2 :: "number \<Rightarrow> number \<Rightarrow> number" where
  "max2 NaN y = NaN"
| "max2 x NaN = NaN"
| "max2 NegInfinity y = y"
| "max2 x NegInfinity = x"
| "max2 (Num a) (Num b) = Num (max a b)"

text \<open>\<open>Math.max(...xs)\<close>: \<open>-Infinity\<close> for no argument, NaN as soon as one argument is NaN.\<close>

definition Math_max :: "number list \<Rightarrow> number" where
  "Math_max xs = foldl max2 NegInfinity xs"

text \<open>\<open>a > b\<close> on two dates: false when either is invalid.\<close>

fun gt :: "date \<Rightarrow> date \<Rightarrow> bool" where
  "gt (Valid a) (Valid b) = (b < a)"
| "gt Invalid b = False"
| "gt a Invalid = False"

text \<open>\<open>a.getTime() === b.getTime()\<close>: NaN is not equal to itself.\<close>

fun sameTime :: "date \<Rightarrow> date \<Rightarrow> bool" where
  "sameTime (Valid a) (Valid b) = (a = b)"
| "sameTime Invalid b = False"
| "sameTime a Invalid = False"

text \<open>\<open>date.toISOString()\<close> throws a RangeError on an invalid date. The string written for a
  valid date is read back by \<open>new Date(string)\<close> as the same date, so the model keeps the
  date the string denotes.\<close>

fun toISOString :: "date \<Rightarrow> exn + date" where
  "toISOString Invalid = Inl RangeError"
| "toISOString (Valid t) = Inr (Valid t)"

section \<open>Articles and the persisted state\<close>

record article =
  title :: string
  url :: string
  published :: date

record state =
  lastPublished :: date
  postedUrls :: "string list"

text \<open>
  The object \<open>JSON.parse\<close> returns for the state file, seen through the two reads the code
  makes of it. \<open>last_published\<close> is \<open>None\<close> when \<open>raw.last_published\<close> is falsy (the key is
  missing, or its value is null, empty, zero or false) and \<open>Some d\<close> when it is truthy and
  \<open>new Date\<close> of it is \<open>d\<close>. \<open>posted_urls\<close> is \<open>Some us\<close> when \<open>raw.posted_urls\<close> is an
  array (of the strings \<open>us\<close>; an element that is not a string equals no URL) and \<open>None\<close>
  otherwise. A JSON number, string, boolean or array is a \<open>JObject\<close> with both reads empty.
\<close>

record raw =
  last_published :: "date option"
  posted_urls :: "string list option"

datatype json = JNull | JObject raw

text \<open>The state file: missing, or present. Of a file that is present, reading and parsing
  either throws (\<open>None\<close>: the text is not JSON, or the file cannot be read) or gives a
  JSON value.\<close>

datatype state_file = NoFile | FileText "json option"

fun JSON_parse :: "json option \<Rightarrow> exn + json" where
  "JSON_parse None = Inl SyntaxError"
| "JSON_parse (Some j) = Inr j"

text \<open>Reading a property of \<open>null\<close> throws a TypeError.\<close>

fun get_last_published :: "json \<Rightarrow> exn + date option" where
  "get_last_published JNull = Inl TypeError"
| "get_last_published (JObject r) = Inr (last_published r)"

fun get_posted_urls :: "json \<Rightarrow> exn + string list option" where
  "get_posted_urls JNull = Inl TypeError"
| "get_posted_urls (JObject r) = Inr (posted_urls r)"

subsection \<open>arc-raiders: loadState and saveState\<close>

text \<open>The body of the \<open>try\<close> block of \<open>loadState\<close>.\<close>

definition loadState_try :: "json option \<Rightarrow> exn + state option" where
  "loadState_try txt =
     (case JSON_parse txt of
        Inl e \<Rightarrow> Inl e
      | Inr j \<Rightarrow>
          (case get_last_published j of
             Inl e \<Rightarrow> Inl e
           | Inr None \<Rightarrow> Inr None
           | Inr (Some Invalid) \<Rightarrow> Inr None
           | Inr (Some (Valid t)) \<Rightarrow>
               (case get_posted_urls j of
                  Inl e \<Rightarrow> Inl e
                | Inr None \<Rightarrow> Inr (Some \<lparr>lastPublished = Valid t, postedUrls = []\<rparr>)
                | Inr (Some us) \<Rightarrow> Inr (Some \<lparr>lastPublished = Valid t, postedUrls = us\<rparr>))))"

text \<open>\<open>loadState\<close>: no file gives \<open>null\<close>; the \<open>catch\<close> turns every exception into \<open>null\<close>.\<close>

definition loadState :: "state_file \<Rightarrow> exn + state option" where
  "loadState f =
     (case f of
        NoFile \<Rightarrow> Inr None
      | FileText txt \<Rightarrow>
          (case loadState_try txt of
             Inl e \<Rightarrow> Inr None
           | Inr r \<Rightarrow> Inr r))"

text \<open>\<open>saveState\<close>: the arguments of \<open>writeFileSync\<close> are evaluated first, so a throwing
  \<open>toISOString\<close> leaves the file as it was. The result is the new content of the file.\<close>

definition saveState :: "date \<Rightarrow> string list \<Rightarrow> exn + state_file" where
  "saveState d us =
     (case toISOString d of
        Inl e \<Rightarrow> Inl e
      | Inr str \<Rightarrow> Inr (FileText (Some (JObject \<lparr>last_published = Some str, posted_urls = Some us\<rparr>))))"

subsection \<open>nightreign: loadLastPublished and saveLastPublished\<close>

definition loadLastPublished_try :: "json option \<Rightarrow> exn + date option" where
  "loadLastPublished_try txt =
     (case JSON_parse txt of
        Inl e \<Rightarrow> Inl e
      | Inr j \<Rightarrow>
          (case get_last_published j of
             Inl e \<Rightarrow> Inl e
           | Inr None \<Rightarrow> Inr None
           | Inr (Some Invalid) \<Rightarrow> Inr None
           | Inr (Some (Valid t)) \<Rightarrow> Inr (Some (Valid t))))"

definition loadLastPublished :: "state_file \<Rightarrow> exn + date option" where
  "loadLastPublished f =
     (case f of
        NoFile \<Rightarrow> Inr None
      | FileText txt \<Rightarrow>
          (case loadLastPublished_try txt of
             Inl e \<Rightarrow> Inr None
           | Inr r \<Rightarrow> Inr r))"

definition saveLastPublished :: "date \<Rightarrow> exn + state_file" where
  "saveLastPublished d =
     (case toISOString d of
        Inl e \<Rightarrow> Inl e
      | Inr str \<Rightarrow> Inr (FileText (Some (JObject \<lparr>last_published = Some str, posted_urls = None\<rparr>))))"

section \<open>Delta logic\<close>

text \<open>
  \<open>Array.prototype.sort\<close> with the comparator \<open>(a, b) => a.published - b.published\<close>. The
  sort is stable; a comparator result of NaN counts as 0. It is modelled as the stable
  insertion sort: an element goes before the first later element that it does not exceed.
\<close>

fun SortCompare :: "article \<Rightarrow> article \<Rightarrow> int" where
  "SortCompare a b =
     (case (published a, published b) of
        (Valid s, Valid t) \<Rightarrow> s - t
      | _ \<Rightarrow> 0)"

fun insert_sorted :: "article \<Rightarrow> article list \<Rightarrow> article list" where
  "insert_sorted a [] = [a]"
| "insert_sorted a (b # bs) =
     (if SortCompare a b \<le> 0 then a # b # bs else b # insert_sorted a bs)"

definition sort_by_published :: "article list \<Rightarrow> article list" where
  "sort_by_published xs = foldr insert_sorted xs []"

text \<open>The \<open>for\<close> loop of arc-raiders' \<open>getUnpostedArticles\<close>, pushing onto \<open>unposted\<close>.\<close>

fun unposted_loop :: "state \<Rightarrow> article list \<Rightarrow> article list" where
  "unposted_loop s [] = []"
| "unposted_loop s (a # as) =
     (if gt (published a) (lastPublished s) then a # unposted_loop s as
      else if sameTime (published a) (lastPublished s) \<and> url a \<notin> set (postedUrls s)
        then a # unposted_loop s as
      else unposted_loop s as)"

definition newest :: "article list \<Rightarrow> date" where
  "newest xs = new_Date (Math_max (map (\<lambda>a. valueOf (published a)) xs))"

text \<open>
  arc-raiders' \<open>getUnpostedArticles\<close>, given the state file and the outcome of
  \<open>getLatestNewsArticles\<close>. It returns the unposted articles and the state file as it
  leaves it, or the exception that escapes.
\<close>

definition getUnpostedArticles ::
  "state_file \<Rightarrow> exn + article list \<Rightarrow> exn + (article list \<times> state_file)" where
  "getUnpostedArticles f latest =
     (case loadState f of
        Inl e \<Rightarrow> Inl e
      | Inr st \<Rightarrow>
          (case latest of
             Inl e \<Rightarrow> Inl e
           | Inr articles \<Rightarrow>
               (case st of
                  None \<Rightarrow>
                    (case saveState (newest articles) [] of
                       Inl e \<Rightarrow> Inl e
                     | Inr f' \<Rightarrow> Inr ([], f'))
                | Some s \<Rightarrow> Inr (sort_by_published (unposted_loop s articles), f))))"

text \<open>nightreign's \<open>getUnpostedArticles\<close>: a strict comparison and no set of URLs.\<close>

definition nr_getUnpostedArticles ::
  "state_file \<Rightarrow> exn + article list \<Rightarrow> exn + (article list \<times> state_file)" where
  "nr_getUnpostedArticles f latest =
     (case loadLastPublished f of
        Inl e \<Rightarrow> Inl e
      | Inr st \<Rightarrow>
          (case latest of
             Inl e \<Rightarrow> Inl e
           | Inr articles \<Rightarrow>
               (case st of
                  None \<Rightarrow>
                    (case saveLastPublished (newest articles) of
                       Inl e \<Rightarrow> Inl e
                     | Inr f' \<Rightarrow> Inr ([], f'))
                | Some lastSeen \<Rightarrow>
                    Inr (sort_by_published (filter (\<lambda>a. gt (published a) lastSeen) articles), f))))"

section \<open>Network\<close>

text \<open>
  The header \<open>Retry-After\<close> of a response as \<open>Number(res.headers.get('Retry-After'))\<close>
  reads it: no header (\<open>get\<close> returns null, which converts to 0), a text that denotes a
  number, or a text that converts to NaN.
\<close>

datatype header_value = HeaderMissing | HeaderNumber rat | HeaderNotANumber

text \<open>A response: its status, its \<open>Retry-After\<close> header, and what scraping its body gives
  (the articles of the page, or the exception the scraper throws on it).\<close>

record response =
  status :: nat
  retryAfterHeader :: header_value
  page :: "exn + article list"

text \<open>\<open>fetch\<close> rejects on a network error and resolves with a response otherwise.\<close>

datatype fetch_result = Rejected | Resolved response

definition ok :: "response \<Rightarrow> bool" where
  "ok res = (200 \<le> status res \<and> status res \<le> 299)"

text \<open>The outside world of one run: what the k-th request to the news page and the k-th
  request to the webhook are answered with (k counts from 0).\<close>

record env =
  site :: "nat \<Rightarrow> fetch_result"
  webhook :: "nat \<Rightarrow> fetch_result"

text \<open>What a run does: requests to the news page, messages posted to the webhook (one per
  attempt), and sleeps in milliseconds.\<close>

datatype event = Get | Post article | Sleep rat

record world =
  stateFile :: state_file
  gets :: nat
  posts :: nat
  trace :: "event list"

subsection \<open>arc-raiders: fetchWithRetry and getLatestNewsArticles\<close>

definition succeeded :: "fetch_result \<Rightarrow> response option" where
  "succeeded r = (case r of Rejected \<Rightarrow> None | Resolved res \<Rightarrow> if ok res then Some res else None)"

definition backoff :: "nat \<Rightarrow> nat \<Rightarrow> world \<Rightarrow> world" where
  "backoff maxAttempts attempt w =
     (if attempt < maxAttempts then w\<lparr>trace := trace w @ [Sleep (2000 * of_nat attempt)]\<rparr> else w)"

text \<open>The \<open>for\<close> loop of \<open>fetchWithRetry\<close>, from the given value of \<open>attempt\<close>.\<close>

function fetchWithRetry_loop :: "env \<Rightarrow> nat \<Rightarrow> nat \<Rightarrow> world \<Rightarrow> response option \<times> world" where
  "fetchWithRetry_loop e maxAttempts attempt w =
     (if attempt \<le> maxAttempts then
        (case succeeded (site e (gets w)) of
           Some res \<Rightarrow> (Some res, w\<lparr>gets := gets w + 1, trace := trace w @ [Get]\<rparr>)
         | None \<Rightarrow>
             fetchWithRetry_loop e maxAttempts (attempt + 1)
               (backoff maxAttempts attempt (w\<lparr>gets := gets w + 1, trace := trace w @ [Get]\<rparr>)))
      else (None, w))"
  by pat_completeness auto
termination
  by (relation "measure (\<lambda>(e, maxAttempts, attempt, w). maxAttempts + 1 - attempt)") auto

declare fetchWithRetry_loop.simps [simp del]

definition fetchWithRetry :: "env \<Rightarrow> nat \<Rightarrow> world \<Rightarrow> response option \<times> world" where
  "fetchWithRetry e maxAttempts w = fetchWithRetry_loop e maxAttempts 1 w"

definition getLatestNewsArticles :: "env \<Rightarrow> world \<Rightarrow> (exn + article list) \<times> world" where
  "getLatestNewsArticles e w =
     (case fetchWithRetry e 3 w of
        (None, w') \<Rightarrow> (Inr [], w')
      | (Some res, w') \<Rightarrow> (page res, w'))"

subsection \<open>nightreign: getLatestNewsArticles\<close>

definition nr_getLatestNewsArticles :: "env \<Rightarrow> world \<Rightarrow> (exn + article list) \<times> world" where
  "nr_getLatestNewsArticles e w =
     (case site e (gets w) of
        Rejected \<Rightarrow> (Inl TypeError, w\<lparr>gets := gets w + 1, trace := trace w @ [Get]\<rparr>)
      | Resolved res \<Rightarrow>
          if \<not> ok res
          then (Inl (HttpError (status res)), w\<lparr>gets := gets w + 1, trace := trace w @ [Get]\<rparr>)
          else (page res, w\<lparr>gets := gets w + 1, trace := trace w @ [Get]\<rparr>))"

section \<open>Discord webhook\<close>

text \<open>\<open>Number(res.headers.get('Retry-After')) || 5\<close>: 0 and NaN are falsy.\<close>

definition retryAfter :: "header_value \<Rightarrow> rat" where
  "retryAfter h =
     (case h of
        HeaderMissing \<Rightarrow> 5
      | HeaderNotANumber \<Rightarrow> 5
      | HeaderNumber x \<Rightarrow> if x = 0 then 5 else x)"

text \<open>arc-raiders' \<open>postToDiscord(article, retries = 3)\<close>: the result is the exception
  thrown, if any.\<close>

fun postToDiscord :: "env \<Rightarrow> article \<Rightarrow> nat \<Rightarrow> world \<Rightarrow> exn option \<times> world" where
  "postToDiscord e a retries w =
     (case webhook e (posts w) of
        Rejected \<Rightarrow> (Some TypeError, w\<lparr>posts := posts w + 1, trace := trace w @ [Post a]\<rparr>)
      | Resolved res \<Rightarrow>
          if status res = 429 \<and> retries > 0 then
            postToDiscord e a (retries - 1)
              (w\<lparr>posts := posts w + 1,
                 trace := trace w @ [Post a, Sleep (retryAfter (retryAfterHeader res) * 1000)]\<rparr>)
          else if \<not> ok res then
            (Some (WebhookFailed (status res)), w\<lparr>posts := posts w + 1, trace := trace w @ [Post a]\<rparr>)
          else (None, w\<lparr>posts := posts w + 1, trace := trace w @ [Post a]\<rparr>))"

declare postToDiscord.simps [simp del]

text \<open>
  nightreign's \<open>postToDiscord(article)\<close> has no parameter \<open>retries\<close> and the module declares
  no such variable: when the status is 429, evaluating \<open>retries > 0\<close> throws a
  ReferenceError. For another status the conjunction stops at its first operand.
\<close>

definition nr_postToDiscord :: "env \<Rightarrow> article \<Rightarrow> world \<Rightarrow> exn option \<times> world" where
  "nr_postToDiscord e a w =
     (case webhook e (posts w) of
        Rejected \<Rightarrow> (Some TypeError, w\<lparr>posts := posts w + 1, trace := trace w @ [Post a]\<rparr>)
      | Resolved res \<Rightarrow>
          if status res = 429 then
            (Some ReferenceError, w\<lparr>posts := posts w + 1, trace := trace w @ [Post a]\<rparr>)
          else if \<not> ok res then
            (Some (WebhookFailed (status res)), w\<lparr>posts := posts w + 1, trace := trace w @ [Post a]\<rparr>)
          else (None, w\<lparr>posts := posts w + 1, trace := trace w @ [Post a]\<rparr>))"

section \<open>Main\<close>

text \<open>The model covers the functions of the two scripts and their main functions. What a
  module runs before them (it reads the address of the webhook from the environment and
  computes the path of the state file) and what is written to the console are left out.\<close>

text \<open>The \<open>for ... of\<close> loop of the main function: the \<open>catch\<close> logs the exception of a
  post and the loop goes on.\<close>

fun post_each :: "env \<Rightarrow> article list \<Rightarrow> world \<Rightarrow> world" where
  "post_each e [] w = w"
| "post_each e (a # as) w = post_each e as (snd (postToDiscord e a 3 w))"

fun nr_post_each :: "env \<Rightarrow> article list \<Rightarrow> world \<Rightarrow> world" where
  "nr_post_each e [] w = w"
| "nr_post_each e (a # as) w = nr_post_each e as (snd (nr_postToDiscord e a w))"

text \<open>One run of arc-raiders' script: the exception that ends it, if any, and the world
  it leaves.\<close>

definition main :: "env \<Rightarrow> world \<Rightarrow> exn option \<times> world" where
  "main e w =
     (case getLatestNewsArticles e w of
        (latest, w1) \<Rightarrow>
          (case getUnpostedArticles (stateFile w1) latest of
             Inl x \<Rightarrow> (Some x, w1)
           | Inr (newArticles, f1) \<Rightarrow>
               (let w2 = post_each e newArticles (w1\<lparr>stateFile := f1\<rparr>) in
                if newArticles \<noteq> [] then
                  (case saveState (newest newArticles)
                          (map url (filter (\<lambda>a. sameTime (published a) (newest newArticles)) newArticles)) of
                     Inl x \<Rightarrow> (Some x, w2)
                   | Inr f2 \<Rightarrow> (None, w2\<lparr>stateFile := f2\<rparr>))
                else (None, w2))))"

text \<open>One run of nightreign's script.\<close>

definition nr_main :: "env \<Rightarrow> world \<Rightarrow> exn option \<times> world" where
  "nr_main e w =
     (case nr_getLatestNewsArticles e w of
        (latest, w1) \<Rightarrow>
          (case nr_getUnpostedArticles (stateFile w1) latest of
             Inl x \<Rightarrow> (Some x, w1)
           | Inr (newArticles, f1) \<Rightarrow>
               (let w2 = nr_post_each e newArticles (w1\<lparr>stateFile := f1\<rparr>) in
                if newArticles \<noteq> [] then
                  (case saveLastPublished (newest newArticles) of
                     Inl x \<Rightarrow> (Some x, w2)
                   | Inr f2 \<Rightarrow> (None, w2\<lparr>stateFile := f2\<rparr>))
                else (None, w2))))"

section \<open>Notions used in the statements\<close>

text \<open>A date that holds a time value in range.\<close>

definition timestamp :: "date \<Rightarrow> bool" where
  "timestamp d = (case d of Valid t \<Rightarrow> \<bar>t\<bar> \<le> maxTime | Invalid \<Rightarrow> False)"

text \<open>The time value of an article's date, for stating that a list is in ascending order.\<close>

definition ms :: "article \<Rightarrow> int" where
  "ms a = (case published a of Valid t \<Rightarrow> t | Invalid \<Rightarrow> 0)"

text \<open>The two conditions under which the loop pushes an article.\<close>

definition included :: "state \<Rightarrow> article \<Rightarrow> bool" where
  "included s a =
     (gt (published a) (lastPublished s) \<or>
      (sameTime (published a) (lastPublished s) \<and> url a \<notin> set (postedUrls s)))"

text \<open>The articles a trace records as posted, in order, one entry per request.\<close>

fun postedArticles :: "event list \<Rightarrow> article list" where
  "postedArticles [] = []"
| "postedArticles (Post a # evs) = a # postedArticles evs"
| "postedArticles (ev # evs) = postedArticles evs"

text \<open>The URLs of the articles a trace records as posted whose date is the given one.\<close>

definition postedUrlsAt :: "date \<Rightarrow> event list \<Rightarrow> string list" where
  "postedUrlsAt d evs = map url (filter (\<lambda>a. sameTime (published a) d) (postedArticles evs))"

text \<open>The invariant of the persisted state: \<open>postedUrls\<close> holds exactly the URLs of the
  articles posted so far whose date is \<open>lastPublished\<close>.\<close>

definition stateInvariant :: "world \<Rightarrow> bool" where
  "stateInvariant w =
     (case loadState (stateFile w) of
        Inr (Some s) \<Rightarrow> set (postedUrls s) = set (postedUrlsAt (lastPublished s) (trace w))
      | _ \<Rightarrow> True)"

text \<open>A world before the first run on a given state file.\<close>

definition start :: "state_file \<Rightarrow> world" where
  "start f = \<lparr>stateFile = f, gets = 0, posts = 0, trace = []\<rparr>"

section \<open>Scenarios\<close>

text \<open>Concrete inputs: the articles of the scenarios (midnight UTC of 2026-01-05, -06, -10
  and -12 in milliseconds), state files, and worlds that answer every request alike.\<close>

definition jan05 :: date where "jan05 = Valid 1767571200000"
definition jan06 :: date where "jan06 = Valid 1767657600000"
definition jan10 :: date where "jan10 = Valid 1768003200000"
definition jan12 :: date where "jan12 = Valid 1768176000000"

definition articleA :: article where
  "articleA = \<lparr>title = ''A'', url = ''https://x/a'', published = jan10\<rparr>"

definition articleB :: article where
  "articleB = \<lparr>title = ''B'', url = ''https://x/b'', published = jan10\<rparr>"

definition articleC :: article where
  "articleC = \<lparr>title = ''C'', url = ''https://x/c'', published = jan12\<rparr>"

definition articleP :: article where
  "articleP = \<lparr>title = ''P'', url = ''https://x/p'', published = jan05\<rparr>"

definition articleQ :: article where
  "articleQ = \<lparr>title = ''Q'', url = ''https://x/q'', published = jan06\<rparr>"

definition articleR :: article where
  "articleR = \<lparr>title = ''R'', url = ''https://x/r'', published = jan06\<rparr>"

text \<open>The state file as \<open>saveState\<close> and \<open>saveLastPublished\<close> write it.\<close>

definition stored :: "date \<Rightarrow> string list \<Rightarrow> state_file" where
  "stored d us = FileText (Some (JObject \<lparr>last_published = Some d, posted_urls = Some us\<rparr>))"

definition nr_stored :: "date \<Rightarrow> state_file" where
  "nr_stored d = FileText (Some (JObject \<lparr>last_published = Some d, posted_urls = None\<rparr>))"

definition answer :: "nat \<Rightarrow> header_value \<Rightarrow> article list \<Rightarrow> fetch_result" where
  "answer n h xs = Resolved \<lparr>status = n, retryAfterHeader = h, page = Inr xs\<rparr>"

text \<open>The page lists the given articles and the webhook accepts every message.\<close>

definition serving :: "article list \<Rightarrow> env" where
  "serving xs = \<lparr>site = (\<lambda>k. answer 200 HeaderMissing xs), webhook = (\<lambda>k. answer 204 HeaderMissing [])\<rparr>"

text \<open>The news page cannot be fetched: no connection, or a 503 to every request.\<close>

definition unreachable :: env where
  "unreachable = \<lparr>site = (\<lambda>k. Rejected), webhook = (\<lambda>k. answer 204 HeaderMissing [])\<rparr>"

definition unavailable :: env where
  "unavailable = \<lparr>site = (\<lambda>k. answer 503 HeaderMissing []), webhook = (\<lambda>k. answer 204 HeaderMissing [])\<rparr>"

text \<open>The webhook answers every message with 429 and the given \<open>Retry-After\<close>.\<close>

definition rateLimited :: "header_value \<Rightarrow> env" where
  "rateLimited h = \<lparr>site = (\<lambda>k. Rejected), webhook = (\<lambda>k. answer 429 h [])\<rparr>"



section \<open>Lemmas on the delta logic\<close>

lemma unposted_loop_filter: "unposted_loop s xs = filter (included s) xs"
  by (induction xs) (auto simp: included_def)

lemma gt_Valid: "gt d e \<Longrightarrow> \<exists>t. d = Valid t"
  by (cases d; cases e) auto

lemma sameTime_Valid: "sameTime d e \<Longrightarrow> \<exists>t. d = Valid t"
  by (cases d; cases e) auto

lemma included_Valid: "included s a \<Longrightarrow> published a \<noteq> Invalid"
  using gt_Valid sameTime_Valid by (fastforce simp: included_def)

lemma gt_trans: "gt a b \<Longrightarrow> gt b c \<Longrightarrow> gt a c"
  by (cases a; cases b; cases c) auto

lemma sameTime_eq: "sameTime a b \<Longrightarrow> a = b"
  by (cases a; cases b) auto

lemma insert_sorted_insort:
  "published a \<noteq> Invalid \<Longrightarrow> \<forall>b\<in>set bs. published b \<noteq> Invalid \<Longrightarrow>
   insert_sorted a bs = insort_key ms a bs"
proof (induction bs)
  case Nil
  show ?case by simp
next
  case (Cons b bs)
  obtain s where s: "published a = Valid s" using Cons.prems(1) by (cases "published a") auto
  obtain t where t: "published b = Valid t" using Cons.prems(2) by (cases "published b") auto
  have "ms a = s" "ms b = t" using s t by (simp_all add: ms_def)
  moreover have "insert_sorted a bs = insort_key ms a bs" using Cons by simp
  ultimately show ?case using s t by simp
qed

lemma sort_by_published_sort_key:
  "\<forall>a\<in>set xs. published a \<noteq> Invalid \<Longrightarrow> sort_by_published xs = sort_key ms xs"
proof (induction xs)
  case Nil
  show ?case by (simp add: sort_by_published_def)
next
  case (Cons a xs)
  have ih: "foldr insert_sorted xs [] = sort_key ms xs"
    using Cons by (simp add: sort_by_published_def)
  have "\<forall>b\<in>set (sort_key ms xs). published b \<noteq> Invalid" using Cons.prems by simp
  then have "insert_sorted a (sort_key ms xs) = insort_key ms a (sort_key ms xs)"
    using Cons.prems insert_sorted_insort by simp
  then show ?case using ih by (simp add: sort_by_published_def sort_key_def)
qed

lemma sort_by_published_props:
  assumes "\<forall>a\<in>set xs. published a \<noteq> Invalid"
  shows "map published (sort_by_published xs) = map Valid (map ms (sort_by_published xs))"
    and "sorted (map ms (sort_by_published xs))"
    and "filter (\<lambda>a. published a = d) (sort_by_published xs) = filter (\<lambda>a. published a = d) xs"
    and "set (sort_by_published xs) = set xs"
proof -
  have eq: "sort_by_published xs = sort_key ms xs"
    using assms by (rule sort_by_published_sort_key)
  have "\<forall>a\<in>set (sort_key ms xs). published a = Valid (ms a)"
  proof
    fix a assume "a \<in> set (sort_key ms xs)"
    then have "published a \<noteq> Invalid" using assms by simp
    then show "published a = Valid (ms a)" by (cases "published a") (auto simp: ms_def)
  qed
  then show "map published (sort_by_published xs) = map Valid (map ms (sort_by_published xs))"
    using eq by simp
  show "sorted (map ms (sort_by_published xs))" using eq by simp
  show "set (sort_by_published xs) = set xs" using eq by simp
  show "filter (\<lambda>a. published a = d) (sort_by_published xs) = filter (\<lambda>a. published a = d) xs"
  proof (cases d)
    case Invalid
    have "filter (\<lambda>a. published a = Invalid) (sort_key ms xs) = []"
      using assms by (simp add: filter_empty_conv)
    moreover have "filter (\<lambda>a. published a = Invalid) xs = []"
      using assms by (simp add: filter_empty_conv)
    ultimately show ?thesis using eq Invalid by simp
  next
    case (Valid t)
    have "filter (\<lambda>a. published a = Valid t) (filter (\<lambda>a. ms a = t) (sort_key ms xs))
        = filter (\<lambda>a. published a = Valid t) (filter (\<lambda>a. ms a = t) xs)"
      by (simp only: sort_key_stable)
    moreover have "\<And>a. (ms a = t \<and> published a = Valid t) = (published a = Valid t)"
      by (auto simp: ms_def)
    ultimately show ?thesis using eq Valid by (simp add: conj_commute)
  qed
qed

lemma Math_max_newest:
  "xs \<noteq> [] \<Longrightarrow> \<forall>a\<in>set xs. timestamp (published a) \<Longrightarrow>
   \<exists>t. Math_max (map (\<lambda>a. valueOf (published a)) xs) = Num t \<and> Valid t \<in> published ` set xs
     \<and> (\<forall>a\<in>set xs. \<not> gt (published a) (Valid t))"
proof (induction xs rule: rev_induct)
  case Nil
  then show ?case by simp
next
  case (snoc x xs)
  obtain tx where tx: "published x = Valid tx"
    using snoc.prems(2) by (cases "published x") (auto simp: timestamp_def)
  show ?case
  proof (cases "xs = []")
    case True
    then show ?thesis using tx by (simp add: Math_max_def)
  next
    case False
    then obtain t where t: "Math_max (map (\<lambda>a. valueOf (published a)) xs) = Num t"
      "Valid t \<in> published ` set xs" "\<forall>a\<in>set xs. \<not> gt (published a) (Valid t)"
      using snoc by auto
    have m: "Math_max (map (\<lambda>a. valueOf (published a)) (xs @ [x])) = Num (max t tx)"
      using t(1) tx by (simp add: Math_max_def)
    have "\<forall>a\<in>set xs. \<not> gt (published a) (Valid (max t tx))"
    proof
      fix a assume "a \<in> set xs"
      then have "\<not> gt (published a) (Valid t)" using t(3) by simp
      then show "\<not> gt (published a) (Valid (max t tx))" by (cases "published a") auto
    qed
    moreover have "Valid (max t tx) \<in> published ` set (xs @ [x])"
      using t(2) tx by (cases "t \<le> tx") (auto simp: max_def image_iff)
    ultimately show ?thesis using m tx by auto
  qed
qed

lemma newest_is_maximum:
  assumes "xs \<noteq> []" and "\<forall>a\<in>set xs. timestamp (published a)"
  shows "timestamp (newest xs) \<and> newest xs \<in> published ` set xs
     \<and> (\<forall>a\<in>set xs. \<not> gt (published a) (newest xs))"
proof -
  obtain t where t: "Math_max (map (\<lambda>a. valueOf (published a)) xs) = Num t"
    "Valid t \<in> published ` set xs" "\<forall>a\<in>set xs. \<not> gt (published a) (Valid t)"
    using Math_max_newest[OF assms] by blast
  then have "timestamp (Valid t)" using assms(2) by auto
  then have "newest xs = Valid t" using t(1) by (simp add: newest_def timestamp_def)
  then show ?thesis using t \<open>timestamp (Valid t)\<close> by simp
qed

lemma loadState_stored: "timestamp d \<Longrightarrow> loadState (stored d us) = Inr (Some \<lparr>lastPublished = d, postedUrls = us\<rparr>)"
  by (cases d) (simp_all add: loadState_def loadState_try_def stored_def timestamp_def)

lemma saveState_timestamp: "timestamp d \<Longrightarrow> saveState d us = Inr (stored d us)"
  by (cases d) (simp_all add: saveState_def stored_def timestamp_def)

lemma loadState_Some_timestamp:
  "loadState f = Inr (Some s) \<Longrightarrow> \<exists>t. lastPublished s = Valid t"
  by (auto simp: loadState_def loadState_try_def split: state_file.splits sum.splits option.splits date.splits)

lemma loadLastPublished_returns: "\<exists>r. loadLastPublished f = Inr r"
  by (cases f) (auto simp: loadLastPublished_def split: sum.splits)

lemma getUnpostedArticles_warm:
  "loadState f = Inr (Some s) \<Longrightarrow>
   getUnpostedArticles f (Inr articles) = Inr (sort_by_published (filter (included s) articles), f)"
  by (simp add: getUnpostedArticles_def unposted_loop_filter)

lemma nr_getUnpostedArticles_warm:
  "loadLastPublished f = Inr (Some l) \<Longrightarrow>
   nr_getUnpostedArticles f (Inr articles)
     = Inr (sort_by_published (filter (\<lambda>a. gt (published a) l) articles), f)"
  by (simp add: nr_getUnpostedArticles_def)

lemma filter_included_Valid: "\<forall>a\<in>set (filter (included s) xs). published a \<noteq> Invalid"
  using included_Valid by auto

lemma filter_gt_Valid: "\<forall>a\<in>set (filter (\<lambda>a. gt (published a) l) xs). published a \<noteq> Invalid"
  using gt_Valid by fastforce

section \<open>Lemmas on the requests\<close>

lemma postedArticles_append: "postedArticles (evs @ evs') = postedArticles evs @ postedArticles evs'"
  by (induction evs rule: postedArticles.induct) simp_all

lemma fetchWithRetry_first:
  "succeeded (site e (gets w)) = Some res \<Longrightarrow> 0 < n \<Longrightarrow>
   fetchWithRetry e n w = (Some res, w\<lparr>gets := gets w + 1, trace := trace w @ [Get]\<rparr>)"
  unfolding fetchWithRetry_def by (subst fetchWithRetry_loop.simps) simp

lemma fetchWithRetry_abandoned:
  assumes "succeeded (site e (gets w)) = None"
    and "succeeded (site e (gets w + 1)) = None"
    and "succeeded (site e (gets w + 2)) = None"
  shows "fetchWithRetry e 3 w
     = (None, w\<lparr>gets := gets w + 3, trace := trace w @ [Get, Sleep 2000, Get, Sleep 4000, Get]\<rparr>)"
proof -
  have s4: "\<And>v. fetchWithRetry_loop e 3 (Suc (Suc (Suc (Suc 0)))) v = (None, v)"
    by (subst fetchWithRetry_loop.simps) simp
  have s3: "\<And>v. succeeded (site e (gets v)) = None \<Longrightarrow>
      fetchWithRetry_loop e 3 (Suc (Suc (Suc 0))) v
        = (None, v\<lparr>gets := gets v + 1, trace := trace v @ [Get]\<rparr>)"
    by (subst fetchWithRetry_loop.simps) (simp add: backoff_def s4)
  have s2: "\<And>v. succeeded (site e (gets v)) = None \<Longrightarrow> succeeded (site e (gets v + 1)) = None \<Longrightarrow>
      fetchWithRetry_loop e 3 (Suc (Suc 0)) v
        = (None, v\<lparr>gets := gets v + 2, trace := trace v @ [Get, Sleep 4000, Get]\<rparr>)"
    by (subst fetchWithRetry_loop.simps) (simp add: backoff_def s3)
  have s1: "fetchWithRetry_loop e 3 (Suc 0) w
        = (None, w\<lparr>gets := gets w + 3, trace := trace w @ [Get, Sleep 2000, Get, Sleep 4000, Get]\<rparr>)"
    using assms by (subst fetchWithRetry_loop.simps) (simp add: backoff_def s2)
  then show ?thesis by (simp add: fetchWithRetry_def)
qed

lemma backoff_frame:
  "stateFile (backoff m a w) = stateFile w \<and> posts (backoff m a w) = posts w
   \<and> gets (backoff m a w) = gets w
   \<and> postedArticles (trace (backoff m a w)) = postedArticles (trace w)"
  by (simp add: backoff_def postedArticles_append)

lemma fetchWithRetry_loop_frame:
  "stateFile (snd (fetchWithRetry_loop e m a w)) = stateFile w
   \<and> posts (snd (fetchWithRetry_loop e m a w)) = posts w
   \<and> postedArticles (trace (snd (fetchWithRetry_loop e m a w))) = postedArticles (trace w)"
proof (induction e m a w rule: fetchWithRetry_loop.induct)
  case (1 e m a w)
  let ?w = "w\<lparr>gets := gets w + 1, trace := trace w @ [Get]\<rparr>"
  show ?case
  proof (cases "a \<le> m")
    case False
    then show ?thesis by (subst (1 2 3) fetchWithRetry_loop.simps) simp
  next
    case le: True
    show ?thesis
    proof (cases "succeeded (site e (gets w))")
      case (Some res)
      then show ?thesis using le
        by (subst (1 2 3) fetchWithRetry_loop.simps) (simp add: postedArticles_append)
    next
      case None
      have step: "fetchWithRetry_loop e m a w = fetchWithRetry_loop e m (a + 1) (backoff m a ?w)"
        using le None by (subst fetchWithRetry_loop.simps) simp
      show ?thesis
        using "1.IH"[OF le None] unfolding step
        by (simp add: backoff_frame postedArticles_append)
    qed
  qed
qed

lemma getLatestNewsArticles_frame:
  "stateFile (snd (getLatestNewsArticles e w)) = stateFile w
   \<and> posts (snd (getLatestNewsArticles e w)) = posts w
   \<and> postedArticles (trace (snd (getLatestNewsArticles e w))) = postedArticles (trace w)"
proof (cases "fetchWithRetry_loop e 3 1 w")
  case (Pair r v)
  then show ?thesis
    using fetchWithRetry_loop_frame[of e 3 1 w]
    by (cases r) (simp_all add: getLatestNewsArticles_def fetchWithRetry_def)
qed

lemma nr_getLatestNewsArticles_frame:
  "stateFile (snd (nr_getLatestNewsArticles e w)) = stateFile w
   \<and> posts (snd (nr_getLatestNewsArticles e w)) = posts w
   \<and> postedArticles (trace (snd (nr_getLatestNewsArticles e w))) = postedArticles (trace w)"
  by (simp add: nr_getLatestNewsArticles_def postedArticles_append split: fetch_result.splits)

lemma ok_not_429: "ok res \<Longrightarrow> status res \<noteq> 429"
  by (auto simp: ok_def)

lemma postToDiscord_ok:
  "webhook e (posts w) = Resolved res \<Longrightarrow> ok res \<Longrightarrow>
   postToDiscord e a retries w = (None, w\<lparr>posts := posts w + 1, trace := trace w @ [Post a]\<rparr>)"
  by (subst postToDiscord.simps) (simp add: ok_not_429)

lemma postToDiscord_rate_limited:
  "webhook e (posts w) = Resolved res \<Longrightarrow> status res = 429 \<Longrightarrow> 0 < retries \<Longrightarrow>
   postToDiscord e a retries w
     = postToDiscord e a (retries - 1)
         (w\<lparr>posts := posts w + 1,
            trace := trace w @ [Post a, Sleep (retryAfter (retryAfterHeader res) * 1000)]\<rparr>)"
  by (subst postToDiscord.simps) simp

lemma postToDiscord_final_failure:
  "webhook e (posts w) = Resolved res \<Longrightarrow> \<not> ok res \<Longrightarrow> status res \<noteq> 429 \<or> retries = 0 \<Longrightarrow>
   postToDiscord e a retries w
     = (Some (WebhookFailed (status res)), w\<lparr>posts := posts w + 1, trace := trace w @ [Post a]\<rparr>)"
  by (subst postToDiscord.simps) auto

lemma postToDiscord_rejected:
  "webhook e (posts w) = Rejected \<Longrightarrow>
   postToDiscord e a retries w
     = (Some TypeError, w\<lparr>posts := posts w + 1, trace := trace w @ [Post a]\<rparr>)"
  by (subst postToDiscord.simps) simp

section \<open>Runs against a page that is served\<close>

lemma getLatestNewsArticles_serving:
  "getLatestNewsArticles (serving xs) w = (Inr xs, w\<lparr>gets := gets w + 1, trace := trace w @ [Get]\<rparr>)"
proof -
  have "succeeded (site (serving xs) (gets w))
      = Some \<lparr>status = 200, retryAfterHeader = HeaderMissing, page = Inr xs\<rparr>"
    by (simp add: serving_def answer_def succeeded_def ok_def)
  then show ?thesis by (simp add: getLatestNewsArticles_def fetchWithRetry_first)
qed

lemma post_each_serving:
  "post_each (serving xs) as w = w\<lparr>posts := posts w + length as, trace := trace w @ map Post as\<rparr>"
proof (induction as arbitrary: w)
  case Nil
  show ?case by simp
next
  case (Cons a as)
  have "postToDiscord (serving xs) a 3 w = (None, w\<lparr>posts := posts w + 1, trace := trace w @ [Post a]\<rparr>)"
    by (rule postToDiscord_ok[where res = "\<lparr>status = 204, retryAfterHeader = HeaderMissing, page = Inr []\<rparr>"])
      (simp_all add: serving_def answer_def ok_def)
  then show ?case using Cons by simp
qed

lemma main_serving:
  "main (serving xs) w =
     (case getUnpostedArticles (stateFile w) (Inr xs) of
        Inl x \<Rightarrow> (Some x, w\<lparr>gets := gets w + 1, trace := trace w @ [Get]\<rparr>)
      | Inr (newArticles, f1) \<Rightarrow>
          if newArticles \<noteq> [] then
            (case saveState (newest newArticles)
                    (map url (filter (\<lambda>a. sameTime (published a) (newest newArticles)) newArticles)) of
               Inl x \<Rightarrow> (Some x, w\<lparr>stateFile := f1, gets := gets w + 1, posts := posts w + length newArticles,
                                    trace := trace w @ Get # map Post newArticles\<rparr>)
             | Inr f2 \<Rightarrow> (None, w\<lparr>stateFile := f2, gets := gets w + 1, posts := posts w + length newArticles,
                                  trace := trace w @ Get # map Post newArticles\<rparr>))
          else (None, w\<lparr>stateFile := f1, gets := gets w + 1, trace := trace w @ [Get]\<rparr>))"
  by (simp add: main_def getLatestNewsArticles_serving post_each_serving Let_def
      split: sum.splits prod.splits)

lemmas scenario_defs =
  articleA_def articleB_def articleC_def articleP_def articleQ_def articleR_def
  jan05_def jan06_def jan10_def jan12_def

lemmas unposted_defs =
  getUnpostedArticles_def loadState_def loadState_try_def saveState_def stored_def
  sort_by_published_def newest_def Math_max_def maxTime_def

section \<open>Loading the state\<close>

text \<open>
  Claim C9. Whatever the state file holds, \<open>loadState\<close> (and nightreign's
  \<open>loadLastPublished\<close>) throws nothing. It returns no state when the file is missing, is
  not JSON, is the JSON \<open>null\<close>, or has a missing, falsy or invalid \<open>last_published\<close>;
  otherwise it returns the state, with the empty list of URLs when \<open>posted_urls\<close> is
  missing or not an array.
\<close>

theorem loadState_never_throws:
  "(\<exists>r. loadState f = Inr r) \<and> (\<exists>r. loadLastPublished f = Inr r)
   \<and> loadState NoFile = Inr None
   \<and> loadState (FileText None) = Inr None
   \<and> loadState (FileText (Some JNull)) = Inr None
   \<and> loadState (FileText (Some (JObject \<lparr>last_published = None, posted_urls = p\<rparr>))) = Inr None
   \<and> loadState (FileText (Some (JObject \<lparr>last_published = Some Invalid, posted_urls = p\<rparr>))) = Inr None
   \<and> loadState (FileText (Some (JObject \<lparr>last_published = Some (Valid t), posted_urls = None\<rparr>)))
       = Inr (Some \<lparr>lastPublished = Valid t, postedUrls = []\<rparr>)
   \<and> loadState (FileText (Some (JObject \<lparr>last_published = Some (Valid t), posted_urls = Some us\<rparr>)))
       = Inr (Some \<lparr>lastPublished = Valid t, postedUrls = us\<rparr>)"
proof -
  have "\<exists>r. loadState f = Inr r"
    by (cases f) (auto simp: loadState_def split: sum.splits)
  moreover have "\<exists>r. loadLastPublished f = Inr r"
    by (cases f) (auto simp: loadLastPublished_def split: sum.splits)
  ultimately show ?thesis
    by (simp add: loadState_def loadState_try_def)
qed

section \<open>Cold start\<close>

text \<open>
  Claim C10. With no prior state and an empty list of articles, the cold-start branch takes
  \<open>Math.max\<close> of nothing, which is \<open>-Infinity\<close>; the date made of it is invalid, and
  \<open>saveState\<close> throws a RangeError from \<open>toISOString\<close>: the function raises instead of
  returning the empty list. The same holds for nightreign's function. So arc-raiders' run
  ends with that exception when there is no prior state and the three requests for the
  page fail; the state file is not written.
\<close>

theorem cold_start_empty_list_raises:
  "Math_max [] = NegInfinity \<and> newest [] = Invalid \<and> saveState (newest []) [] = Inl RangeError
   \<and> (loadState f = Inr None \<longrightarrow> getUnpostedArticles f (Inr []) = Inl RangeError)
   \<and> (loadLastPublished f = Inr None \<longrightarrow> nr_getUnpostedArticles f (Inr []) = Inl RangeError)
   \<and> (loadState (stateFile w) = Inr None
        \<and> succeeded (site e (gets w)) = None \<and> succeeded (site e (gets w + 1)) = None
        \<and> succeeded (site e (gets w + 2)) = None \<longrightarrow>
          main e w
            = (Some RangeError,
               w\<lparr>gets := gets w + 3, trace := trace w @ [Get, Sleep 2000, Get, Sleep 4000, Get]\<rparr>))"
proof -
  have g: "\<And>f. loadState f = Inr None \<Longrightarrow> getUnpostedArticles f (Inr []) = Inl RangeError"
    by (simp add: Math_max_def newest_def saveState_def getUnpostedArticles_def)
  have m: "main e w
      = (Some RangeError,
         w\<lparr>gets := gets w + 3, trace := trace w @ [Get, Sleep 2000, Get, Sleep 4000, Get]\<rparr>)"
    if a: "loadState (stateFile w) = Inr None
        \<and> succeeded (site e (gets w)) = None \<and> succeeded (site e (gets w + 1)) = None
        \<and> succeeded (site e (gets w + 2)) = None"
  proof -
    have "getLatestNewsArticles e w
        = (Inr [], w\<lparr>gets := gets w + 3, trace := trace w @ [Get, Sleep 2000, Get, Sleep 4000, Get]\<rparr>)"
      using a by (simp add: getLatestNewsArticles_def fetchWithRetry_abandoned)
    then show ?thesis using g a by (simp add: main_def)
  qed
  have "Math_max [] = NegInfinity \<and> newest [] = Invalid
      \<and> saveState (newest []) [] = Inl RangeError
      \<and> (loadLastPublished f = Inr None \<longrightarrow> nr_getUnpostedArticles f (Inr []) = Inl RangeError)"
    by (simp add: Math_max_def newest_def saveState_def saveLastPublished_def
        nr_getUnpostedArticles_def)
  then show ?thesis using g m by blast
qed

text \<open>The hypotheses of C10 hold for a missing file and for a file that is not JSON, and for
  a page that cannot be reached.\<close>

theorem cold_start_empty_list_raises_witness:
  "loadState NoFile = Inr None \<and> getUnpostedArticles NoFile (Inr []) = Inl RangeError
   \<and> loadLastPublished (FileText None) = Inr None
   \<and> nr_getUnpostedArticles (FileText None) (Inr []) = Inl RangeError
   \<and> main unreachable (start NoFile)
     = (Some RangeError, \<lparr>stateFile = NoFile, gets = 3, posts = 0,
                           trace = [Get, Sleep 2000, Get, Sleep 4000, Get]\<rparr>)"
proof -
  have a: "loadState NoFile = Inr None" by (simp add: loadState_def)
  have b: "loadLastPublished (FileText None) = Inr None"
    by (simp add: loadLastPublished_def loadLastPublished_try_def)
  have c: "\<And>k. succeeded (site unreachable k) = None"
    by (simp add: unreachable_def succeeded_def)
  show ?thesis
    using a b c cold_start_empty_list_raises[of NoFile "start NoFile" unreachable]
      cold_start_empty_list_raises[of "FileText None"]
    by (simp add: start_def)
qed

text \<open>
  Claim C3. With no prior state and a non-empty list of articles that all carry a
  timestamp, \<open>getUnpostedArticles\<close> returns the empty list and leaves a state file whose
  \<open>last_published\<close> is the maximum of the articles' dates: it is the date of one of them,
  and none is later. The run then posts nothing: \<open>main\<close> ends without an exception and
  its trace records no article beyond those before the run. The same holds for
  nightreign.
\<close>

theorem cold_start_baseline:
  assumes "articles \<noteq> []" and "\<forall>a\<in>set articles. timestamp (published a)"
  shows "(loadState f = Inr None \<longrightarrow>
            getUnpostedArticles f (Inr articles) = Inr ([], stored (newest articles) [])
          \<and> loadState (stored (newest articles) [])
              = Inr (Some \<lparr>lastPublished = newest articles, postedUrls = []\<rparr>))
       \<and> (loadState (stateFile w) = Inr None \<and> getLatestNewsArticles e w = (Inr articles, w1) \<longrightarrow>
            main e w = (None, w1\<lparr>stateFile := stored (newest articles) []\<rparr>)
          \<and> postedArticles (trace w1) = postedArticles (trace w))
       \<and> (loadLastPublished f = Inr None \<longrightarrow>
            nr_getUnpostedArticles f (Inr articles) = Inr ([], nr_stored (newest articles))
          \<and> loadLastPublished (nr_stored (newest articles)) = Inr (Some (newest articles)))
       \<and> (loadLastPublished (stateFile w) = Inr None
            \<and> nr_getLatestNewsArticles e w = (Inr articles, w1) \<longrightarrow>
            nr_main e w = (None, w1\<lparr>stateFile := nr_stored (newest articles)\<rparr>)
          \<and> postedArticles (trace w1) = postedArticles (trace w))
       \<and> newest articles \<in> published ` set articles
       \<and> (\<forall>a\<in>set articles. \<not> gt (published a) (newest articles))"
proof -
  have n: "timestamp (newest articles)" "newest articles \<in> published ` set articles"
    "\<forall>a\<in>set articles. \<not> gt (published a) (newest articles)"
    using newest_is_maximum[OF assms] by simp_all
  obtain t where t: "newest articles = Valid t"
    using n(1) by (cases "newest articles") (auto simp: timestamp_def)
  have g: "\<And>f. loadState f = Inr None \<Longrightarrow>
      getUnpostedArticles f (Inr articles) = Inr ([], stored (newest articles) [])"
    using n(1) by (simp add: getUnpostedArticles_def saveState_timestamp)
  have l: "loadState (stored (newest articles) [])
      = Inr (Some \<lparr>lastPublished = newest articles, postedUrls = []\<rparr>)"
    using n(1) by (rule loadState_stored)
  have ng: "\<And>f. loadLastPublished f = Inr None \<Longrightarrow>
      nr_getUnpostedArticles f (Inr articles) = Inr ([], nr_stored (newest articles))"
    using t by (simp add: nr_getUnpostedArticles_def saveLastPublished_def nr_stored_def)
  have nl: "loadLastPublished (nr_stored (newest articles)) = Inr (Some (newest articles))"
    using t by (simp add: loadLastPublished_def loadLastPublished_try_def nr_stored_def)
  have m: "main e w = (None, w1\<lparr>stateFile := stored (newest articles) []\<rparr>)
      \<and> postedArticles (trace w1) = postedArticles (trace w)"
    if a: "loadState (stateFile w) = Inr None \<and> getLatestNewsArticles e w = (Inr articles, w1)"
  proof -
    have fr: "stateFile w1 = stateFile w" "postedArticles (trace w1) = postedArticles (trace w)"
      using getLatestNewsArticles_frame[of e w] a by simp_all
    then have "getUnpostedArticles (stateFile w1) (Inr articles)
        = Inr ([], stored (newest articles) [])"
      using g a by simp
    then show ?thesis using a fr by (simp add: main_def)
  qed
  have nm: "nr_main e w = (None, w1\<lparr>stateFile := nr_stored (newest articles)\<rparr>)
      \<and> postedArticles (trace w1) = postedArticles (trace w)"
    if a: "loadLastPublished (stateFile w) = Inr None
      \<and> nr_getLatestNewsArticles e w = (Inr articles, w1)"
  proof -
    have fr: "stateFile w1 = stateFile w" "postedArticles (trace w1) = postedArticles (trace w)"
      using nr_getLatestNewsArticles_frame[of e w] a by simp_all
    then have "nr_getUnpostedArticles (stateFile w1) (Inr articles)
        = Inr ([], nr_stored (newest articles))"
      using ng a by simp
    then show ?thesis using a fr by (simp add: nr_main_def)
  qed
  show ?thesis using g l ng nl m nm n(2,3) by blast
qed

text \<open>C3 on the three articles dated 01-05, 01-06 and 01-06, with no state file.\<close>

theorem cold_start_baseline_witness:
  "getUnpostedArticles NoFile (Inr [articleP, articleQ, articleR]) = Inr ([], stored jan06 [])
   \<and> loadState (stored jan06 []) = Inr (Some \<lparr>lastPublished = jan06, postedUrls = []\<rparr>)
   \<and> nr_getUnpostedArticles NoFile (Inr [articleP, articleQ, articleR]) = Inr ([], nr_stored jan06)
   \<and> newest [articleP, articleQ, articleR] = jan06
   \<and> main (serving [articleP, articleQ, articleR]) (start NoFile)
     = (None, \<lparr>stateFile = stored jan06 [], gets = 1, posts = 0, trace = [Get]\<rparr>)"
proof -
  have ne: "[articleP, articleQ, articleR] \<noteq> []" by simp
  have ts: "\<forall>a\<in>set [articleP, articleQ, articleR]. timestamp (published a)"
    by (simp add: articleP_def articleQ_def articleR_def jan05_def jan06_def timestamp_def maxTime_def)
  have n: "newest [articleP, articleQ, articleR] = jan06"
    by (simp add: newest_def Math_max_def articleP_def articleQ_def articleR_def jan05_def jan06_def
        maxTime_def)
  have a: "loadState NoFile = Inr None" by (simp add: loadState_def)
  have b: "loadLastPublished NoFile = Inr None" by (simp add: loadLastPublished_def)
  have c: "getLatestNewsArticles (serving [articleP, articleQ, articleR]) (start NoFile)
      = (Inr [articleP, articleQ, articleR],
         \<lparr>stateFile = NoFile, gets = 1, posts = 0, trace = [Get]\<rparr>)"
    by (simp add: getLatestNewsArticles_serving start_def)
  have d: "stateFile (start NoFile) = NoFile" by (simp add: start_def)
  show ?thesis
    using cold_start_baseline[OF ne ts, of NoFile "start NoFile"
        "serving [articleP, articleQ, articleR]"
        "\<lparr>stateFile = NoFile, gets = 1, posts = 0, trace = [Get]\<rparr>"] a b c d n
    by simp
qed

text \<open>
  Claim C4 expects the cold start on three articles dated 01-05, 01-06 and 01-06 to
  persist \<open>{lastPublished: 01-06, postedUrls: [both 01-06 urls]}\<close>. The cold-start branch
  calls \<open>saveState(newest, [])\<close>: the list is returned empty, but the state is written
  with no URL, so for the next run on the same page both articles of 01-06 are unposted,
  and that run posts them.
\<close>

theorem cold_start_stores_no_urls:
  "getUnpostedArticles NoFile (Inr [articleP, articleQ, articleR]) = Inr ([], stored jan06 [])
   \<and> getUnpostedArticles (stored jan06 []) (Inr [articleP, articleQ, articleR])
     = Inr ([articleQ, articleR], stored jan06 [])
   \<and> main (serving [articleP, articleQ, articleR]) (start NoFile)
     = (None, \<lparr>stateFile = stored jan06 [], gets = 1, posts = 0, trace = [Get]\<rparr>)
   \<and> main (serving [articleP, articleQ, articleR])
       \<lparr>stateFile = stored jan06 [], gets = 1, posts = 0, trace = [Get]\<rparr>
     = (None, \<lparr>stateFile = stored jan06 [''https://x/q'', ''https://x/r''], gets = 2, posts = 2,
                trace = [Get, Get, Post articleQ, Post articleR]\<rparr>)"
  by (simp add: main_serving start_def unposted_defs scenario_defs)

section \<open>The delta with a prior state\<close>

text \<open>
  Claim C2. With a prior state, arc-raiders' \<open>getUnpostedArticles\<close> returns an article of
  the list if and only if its date is later than \<open>lastPublished\<close>, or equal to it with a
  URL that is not among \<open>postedUrls\<close>; the state file is left as it was. In particular, of
  two articles dated \<open>lastPublished\<close> of which only the first has its URL among
  \<open>postedUrls\<close>, exactly the second is returned, in whichever order the page lists them.
\<close>

theorem delta_inclusion_rule:
  assumes "loadState f = Inr (Some s)"
  shows "(\<exists>out. getUnpostedArticles f (Inr articles) = Inr (out, f)
            \<and> (\<forall>a. a \<in> set out \<longleftrightarrow>
                   a \<in> set articles
                 \<and> (gt (published a) (lastPublished s)
                    \<or> (sameTime (published a) (lastPublished s) \<and> url a \<notin> set (postedUrls s)))))
       \<and> (published a = lastPublished s \<and> published b = lastPublished s
            \<and> url a \<in> set (postedUrls s) \<and> url b \<notin> set (postedUrls s) \<longrightarrow>
              getUnpostedArticles f (Inr [a, b]) = Inr ([b], f)
            \<and> getUnpostedArticles f (Inr [b, a]) = Inr ([b], f))"
proof -
  have "set (sort_by_published (filter (included s) articles)) = set (filter (included s) articles)"
    using filter_included_Valid by (rule sort_by_published_props(4))
  then have first: "\<exists>out. getUnpostedArticles f (Inr articles) = Inr (out, f)
      \<and> (\<forall>a. a \<in> set out \<longleftrightarrow>
             a \<in> set articles
           \<and> (gt (published a) (lastPublished s)
              \<or> (sameTime (published a) (lastPublished s) \<and> url a \<notin> set (postedUrls s))))"
    using assms by (simp add: getUnpostedArticles_warm included_def)
  obtain t where t: "lastPublished s = Valid t"
    using loadState_Some_timestamp[OF assms] by blast
  have "published a = lastPublished s \<and> published b = lastPublished s
      \<and> url a \<in> set (postedUrls s) \<and> url b \<notin> set (postedUrls s) \<longrightarrow>
        getUnpostedArticles f (Inr [a, b]) = Inr ([b], f)
      \<and> getUnpostedArticles f (Inr [b, a]) = Inr ([b], f)"
    using assms t by (simp add: getUnpostedArticles_def sort_by_published_def)
  then show ?thesis using first by blast
qed

text \<open>C2 on the state \<open>{2026-01-10, [https://x/a]}\<close> and the articles A, B (01-10) and C
  (01-12).\<close>

theorem delta_inclusion_rule_witness:
  "(\<exists>out. getUnpostedArticles (stored jan10 [''https://x/a'']) (Inr [articleA, articleB, articleC])
            = Inr (out, stored jan10 [''https://x/a''])
        \<and> articleA \<notin> set out \<and> articleB \<in> set out \<and> articleC \<in> set out)
   \<and> getUnpostedArticles (stored jan10 [''https://x/a'']) (Inr [articleA, articleB])
       = Inr ([articleB], stored jan10 [''https://x/a''])"
proof -
  let ?s = "\<lparr>lastPublished = jan10, postedUrls = [''https://x/a'']\<rparr>"
  have l: "loadState (stored jan10 [''https://x/a'']) = Inr (Some ?s)"
    by (simp add: loadState_stored timestamp_def jan10_def maxTime_def)
  note r = delta_inclusion_rule[OF l, of "[articleA, articleB, articleC]" articleA articleB]
  obtain out where out:
    "getUnpostedArticles (stored jan10 [''https://x/a'']) (Inr [articleA, articleB, articleC])
       = Inr (out, stored jan10 [''https://x/a''])"
    "\<And>x. x \<in> set out \<longleftrightarrow>
        x \<in> set [articleA, articleB, articleC]
      \<and> (gt (published x) (lastPublished ?s)
         \<or> (sameTime (published x) (lastPublished ?s) \<and> url x \<notin> set (postedUrls ?s)))"
    using r by blast
  have "articleA \<notin> set out"
    by (simp add: out(2) articleA_def jan10_def)
  moreover have "articleB \<in> set out"
    by (simp add: out(2) articleB_def jan10_def)
  moreover have "articleC \<in> set out"
    by (simp add: out(2) articleC_def jan10_def jan12_def)
  moreover have "getUnpostedArticles (stored jan10 [''https://x/a'']) (Inr [articleA, articleB])
       = Inr ([articleB], stored jan10 [''https://x/a''])"
    using r by (simp add: articleA_def articleB_def)
  ultimately show ?thesis using out(1) by blast
qed

text \<open>nightreign keeps no URLs; its rule is the strict comparison alone.\<close>

lemma nr_delta_strict:
  assumes "loadLastPublished f = Inr (Some l)"
  shows "\<exists>out. nr_getUnpostedArticles f (Inr articles) = Inr (out, f)
           \<and> (\<forall>a. a \<in> set out \<longleftrightarrow> a \<in> set articles \<and> gt (published a) l)"
proof -
  have "set (sort_by_published (filter (\<lambda>a. gt (published a) l) articles))
      = set (filter (\<lambda>a. gt (published a) l) articles)"
    using filter_gt_Valid by (rule sort_by_published_props(4))
  then show ?thesis using assms by (simp add: nr_getUnpostedArticles_warm)
qed

text \<open>
  Claim C8. With a prior state and any list of articles, in any order, the list that
  \<open>getUnpostedArticles\<close> returns is in ascending order of the dates (all of them valid),
  and the sort is stable: for every date, the returned articles of that date are the
  included articles of that date in the order of the source. The same holds for
  nightreign's function.
\<close>

theorem unposted_sorted_stable:
  "(loadState f = Inr (Some s) \<longrightarrow>
      (\<exists>out. getUnpostedArticles f (Inr articles) = Inr (out, f)
         \<and> map published out = map Valid (map ms out) \<and> sorted (map ms out)
         \<and> (\<forall>d. filter (\<lambda>a. published a = d) out
                  = filter (\<lambda>a. published a = d) (filter (included s) articles))))
   \<and> (loadLastPublished f = Inr (Some l) \<longrightarrow>
      (\<exists>out. nr_getUnpostedArticles f (Inr articles) = Inr (out, f)
         \<and> map published out = map Valid (map ms out) \<and> sorted (map ms out)
         \<and> (\<forall>d. filter (\<lambda>a. published a = d) out
                  = filter (\<lambda>a. published a = d) (filter (\<lambda>a. gt (published a) l) articles))))"
proof (intro conjI impI)
  assume "loadState f = Inr (Some s)"
  then have "getUnpostedArticles f (Inr articles)
      = Inr (sort_by_published (filter (included s) articles), f)"
    by (rule getUnpostedArticles_warm)
  then show "\<exists>out. getUnpostedArticles f (Inr articles) = Inr (out, f)
         \<and> map published out = map Valid (map ms out) \<and> sorted (map ms out)
         \<and> (\<forall>d. filter (\<lambda>a. published a = d) out
                  = filter (\<lambda>a. published a = d) (filter (included s) articles))"
    using sort_by_published_props(1-3)[OF filter_included_Valid[of s articles]] by blast
next
  assume "loadLastPublished f = Inr (Some l)"
  then have "nr_getUnpostedArticles f (Inr articles)
      = Inr (sort_by_published (filter (\<lambda>a. gt (published a) l) articles), f)"
    by (rule nr_getUnpostedArticles_warm)
  then show "\<exists>out. nr_getUnpostedArticles f (Inr articles) = Inr (out, f)
         \<and> map published out = map Valid (map ms out) \<and> sorted (map ms out)
         \<and> (\<forall>d. filter (\<lambda>a. published a = d) out
                  = filter (\<lambda>a. published a = d) (filter (\<lambda>a. gt (published a) l) articles))"
    using sort_by_published_props(1-3)[OF filter_gt_Valid[of l articles]] by blast
qed

text \<open>C8 on the page C, B, A with the state \<open>{2026-01-05, []}\<close>: B stays before A.\<close>

theorem unposted_sorted_stable_witness:
  "getUnpostedArticles (stored jan10 [''https://x/a'']) (Inr [articleC, articleA, articleB])
     = Inr ([articleB, articleC], stored jan10 [''https://x/a''])
   \<and> getUnpostedArticles (stored jan05 []) (Inr [articleC, articleB, articleA])
     = Inr ([articleB, articleA, articleC], stored jan05 [])
   \<and> nr_getUnpostedArticles (nr_stored jan05) (Inr [articleC, articleB, articleA])
     = Inr ([articleB, articleA, articleC], nr_stored jan05)"
proof -
  have l: "loadState (stored jan05 [])
      = Inr (Some \<lparr>lastPublished = jan05, postedUrls = []\<rparr>)"
    by (simp add: loadState_stored timestamp_def jan05_def maxTime_def)
  have n: "loadLastPublished (nr_stored jan05) = Inr (Some jan05)"
    by (simp add: loadLastPublished_def loadLastPublished_try_def nr_stored_def jan05_def)
  show ?thesis
    using unposted_sorted_stable[of "stored jan05 []" "\<lparr>lastPublished = jan05, postedUrls = []\<rparr>"
        "[articleC, articleB, articleA]"] l n
    by (simp add: getUnpostedArticles_def nr_getUnpostedArticles_def loadState_def loadState_try_def
        stored_def sort_by_published_def
        articleA_def articleB_def articleC_def jan05_def jan10_def jan12_def)
qed

section \<open>The write-back\<close>

text \<open>
  Claim C1 asks that, after a run that wrote a new state, the delta of the unchanged list
  be empty. The write-back stores the URLs of this run's articles of the newest date and
  drops the URLs stored before. At the state \<open>{2026-01-10, [https://x/a]}\<close> and the page
  A, B (both of 01-10), the run posts B and writes \<open>{2026-01-10, [https://x/b]}\<close>; the
  delta of the same page is then A, which was posted before.
\<close>

theorem rerun_reposts_same_date_article:
  "main (serving [articleA, articleB]) (start (stored jan10 [''https://x/a'']))
     = (None, \<lparr>stateFile = stored jan10 [''https://x/b''], gets = 1, posts = 1,
                trace = [Get, Post articleB]\<rparr>)
   \<and> getUnpostedArticles (stored jan10 [''https://x/b'']) (Inr [articleA, articleB])
     = Inr ([articleA], stored jan10 [''https://x/b''])"
  by (simp add: main_serving start_def unposted_defs scenario_defs)

text \<open>Where the run's newest article is later than \<open>lastPublished\<close>, and in nightreign's
  script always, the delta of the same list after the write-back is empty.\<close>

lemma rerun_after_newer_article:
  assumes st: "loadState f = Inr (Some s)"
    and ts: "\<forall>a\<in>set articles. timestamp (published a)"
    and out: "getUnpostedArticles f (Inr articles) = Inr (out, f')"
    and ne: "out \<noteq> []"
    and newer: "gt (newest out) (lastPublished s)"
  shows "getUnpostedArticles
           (stored (newest out) (map url (filter (\<lambda>a. sameTime (published a) (newest out)) out)))
           (Inr articles)
         = Inr ([], stored (newest out) (map url (filter (\<lambda>a. sameTime (published a) (newest out)) out)))"
proof -
  let ?N = "newest out"
  let ?us = "map url (filter (\<lambda>a. sameTime (published a) ?N) out)"
  let ?s' = "\<lparr>lastPublished = ?N, postedUrls = ?us\<rparr>"
  have o: "out = sort_by_published (filter (included s) articles)"
    using out by (simp add: getUnpostedArticles_warm[OF st])
  have so: "set out = set (filter (included s) articles)"
    unfolding o using filter_included_Valid by (rule sort_by_published_props(4))
  then have tso: "\<forall>a\<in>set out. timestamp (published a)" using ts by simp
  have n: "timestamp ?N" "\<forall>a\<in>set out. \<not> gt (published a) ?N"
    using newest_is_maximum[OF ne tso] by simp_all
  have none: "\<not> included ?s' a" if a: "a \<in> set articles" for a
  proof
    assume i: "included ?s' a"
    show False
    proof (cases "gt (published a) ?N")
      case True
      then have "gt (published a) (lastPublished s)" using newer by (rule gt_trans)
      then have "a \<in> set out" using a so by (simp add: included_def)
      then show False using n(2) True by blast
    next
      case False
      then have e: "sameTime (published a) ?N" "url a \<notin> set ?us"
        using i by (simp_all add: included_def)
      then have "published a = ?N" by (simp add: sameTime_eq)
      then have "gt (published a) (lastPublished s)" using newer by simp
      then have "a \<in> set out" using a so by (simp add: included_def)
      then have "url a \<in> set ?us" using e(1) by auto
      then show False using e(2) by contradiction
    qed
  qed
  then have "filter (included ?s') articles = []"
    by (simp add: filter_empty_conv)
  moreover have "loadState (stored ?N ?us) = Inr (Some ?s')"
    using n(1) by (rule loadState_stored)
  ultimately show ?thesis
    by (simp add: getUnpostedArticles_warm sort_by_published_def)
qed

lemma nr_rerun_returns_nothing:
  assumes st: "loadLastPublished f = Inr (Some l)"
    and ts: "\<forall>a\<in>set articles. timestamp (published a)"
    and out: "nr_getUnpostedArticles f (Inr articles) = Inr (out, f')"
    and ne: "out \<noteq> []"
  shows "nr_getUnpostedArticles (nr_stored (newest out)) (Inr articles)
         = Inr ([], nr_stored (newest out))"
proof -
  let ?N = "newest out"
  have o: "out = sort_by_published (filter (\<lambda>a. gt (published a) l) articles)"
    using out by (simp add: nr_getUnpostedArticles_warm[OF st])
  have so: "set out = set (filter (\<lambda>a. gt (published a) l) articles)"
    unfolding o using filter_gt_Valid by (rule sort_by_published_props(4))
  then have tso: "\<forall>a\<in>set out. timestamp (published a)" using ts by simp
  have n: "timestamp ?N" "?N \<in> published ` set out" "\<forall>a\<in>set out. \<not> gt (published a) ?N"
    using newest_is_maximum[OF ne tso] by simp_all
  have newer: "gt ?N l" using n(2) so by auto
  have "\<not> gt (published a) ?N" if a: "a \<in> set articles" for a
  proof
    assume g: "gt (published a) ?N"
    then have "gt (published a) l" using newer by (rule gt_trans)
    then have "a \<in> set out" using a so by simp
    then show False using n(3) g by blast
  qed
  then have "filter (\<lambda>a. gt (published a) ?N) articles = []"
    by (simp add: filter_empty_conv)
  moreover obtain t where "?N = Valid t" using n(1) by (cases ?N) (auto simp: timestamp_def)
  then have "loadLastPublished (nr_stored ?N) = Inr (Some ?N)"
    by (simp add: loadLastPublished_def loadLastPublished_try_def nr_stored_def)
  ultimately show ?thesis
    by (simp add: nr_getUnpostedArticles_warm sort_by_published_def)
qed

text \<open>
  Claim C5 states the invariant that \<open>postedUrls\<close> holds exactly the URLs of the posted
  articles dated \<open>lastPublished\<close>, in every state reached from a cold start. Four runs:
  a cold start on the page P; a run on P, A that posts both; a run on P, A, B that posts B
  and writes \<open>{2026-01-10, [https://x/b]}\<close>, although A and B, both of 01-10, have been
  posted: the invariant holds after the first two runs and fails after the third. The
  fourth run, on the same page, posts A again.
\<close>

theorem write_back_forgets_posted_urls:
  "main (serving [articleP]) (start NoFile)
     = (None, \<lparr>stateFile = stored jan05 [], gets = 1, posts = 0, trace = [Get]\<rparr>)
   \<and> main (serving [articleP, articleA])
       \<lparr>stateFile = stored jan05 [], gets = 1, posts = 0, trace = [Get]\<rparr>
     = (None, \<lparr>stateFile = stored jan10 [''https://x/a''], gets = 2, posts = 2,
                trace = [Get, Get, Post articleP, Post articleA]\<rparr>)
   \<and> main (serving [articleP, articleA, articleB])
       \<lparr>stateFile = stored jan10 [''https://x/a''], gets = 2, posts = 2,
          trace = [Get, Get, Post articleP, Post articleA]\<rparr>
     = (None, \<lparr>stateFile = stored jan10 [''https://x/b''], gets = 3, posts = 3,
                trace = [Get, Get, Post articleP, Post articleA, Get, Post articleB]\<rparr>)
   \<and> stateInvariant \<lparr>stateFile = stored jan05 [], gets = 1, posts = 0, trace = [Get]\<rparr>
   \<and> stateInvariant \<lparr>stateFile = stored jan10 [''https://x/a''], gets = 2, posts = 2,
          trace = [Get, Get, Post articleP, Post articleA]\<rparr>
   \<and> \<not> stateInvariant \<lparr>stateFile = stored jan10 [''https://x/b''], gets = 3, posts = 3,
          trace = [Get, Get, Post articleP, Post articleA, Get, Post articleB]\<rparr>
   \<and> postedUrlsAt jan10 [Get, Get, Post articleP, Post articleA, Get, Post articleB]
     = [''https://x/a'', ''https://x/b'']
   \<and> main (serving [articleP, articleA, articleB])
       \<lparr>stateFile = stored jan10 [''https://x/b''], gets = 3, posts = 3,
          trace = [Get, Get, Post articleP, Post articleA, Get, Post articleB]\<rparr>
     = (None, \<lparr>stateFile = stored jan10 [''https://x/a''], gets = 4, posts = 4,
                trace = [Get, Get, Post articleP, Post articleA, Get, Post articleB, Get,
                         Post articleA]\<rparr>)"
proof -
  have runs: "main (serving [articleP]) (start NoFile)
     = (None, \<lparr>stateFile = stored jan05 [], gets = 1, posts = 0, trace = [Get]\<rparr>)
   \<and> main (serving [articleP, articleA])
       \<lparr>stateFile = stored jan05 [], gets = 1, posts = 0, trace = [Get]\<rparr>
     = (None, \<lparr>stateFile = stored jan10 [''https://x/a''], gets = 2, posts = 2,
                trace = [Get, Get, Post articleP, Post articleA]\<rparr>)
   \<and> main (serving [articleP, articleA, articleB])
       \<lparr>stateFile = stored jan10 [''https://x/a''], gets = 2, posts = 2,
          trace = [Get, Get, Post articleP, Post articleA]\<rparr>
     = (None, \<lparr>stateFile = stored jan10 [''https://x/b''], gets = 3, posts = 3,
                trace = [Get, Get, Post articleP, Post articleA, Get, Post articleB]\<rparr>)
   \<and> main (serving [articleP, articleA, articleB])
       \<lparr>stateFile = stored jan10 [''https://x/b''], gets = 3, posts = 3,
          trace = [Get, Get, Post articleP, Post articleA, Get, Post articleB]\<rparr>
     = (None, \<lparr>stateFile = stored jan10 [''https://x/a''], gets = 4, posts = 4,
                trace = [Get, Get, Post articleP, Post articleA, Get, Post articleB, Get,
                         Post articleA]\<rparr>)"
    by (simp add: main_serving start_def unposted_defs scenario_defs)
  have inv: "stateInvariant \<lparr>stateFile = stored jan05 [], gets = 1, posts = 0, trace = [Get]\<rparr>
   \<and> stateInvariant \<lparr>stateFile = stored jan10 [''https://x/a''], gets = 2, posts = 2,
          trace = [Get, Get, Post articleP, Post articleA]\<rparr>
   \<and> \<not> stateInvariant \<lparr>stateFile = stored jan10 [''https://x/b''], gets = 3, posts = 3,
          trace = [Get, Get, Post articleP, Post articleA, Get, Post articleB]\<rparr>
   \<and> postedUrlsAt jan10 [Get, Get, Post articleP, Post articleA, Get, Post articleB]
     = [''https://x/a'', ''https://x/b'']"
    by (simp add: stateInvariant_def postedUrlsAt_def loadState_def loadState_try_def stored_def
        scenario_defs)
  show ?thesis using runs inv by simp
qed

section \<open>Rate limits of the webhook\<close>

text \<open>arc-raiders' \<open>postToDiscord\<close>: on a 429 with retries left it sleeps
  \<open>Retry-After\<close> seconds (5 when the header is missing, not a number, or 0) and posts
  again; it makes at most \<open>retries + 1\<close> requests; any other response that is not 2xx,
  and a 429 with no retry left, is thrown at once.\<close>

lemma retryAfter_cases:
  "retryAfter HeaderMissing = 5 \<and> retryAfter HeaderNotANumber = 5 \<and> retryAfter (HeaderNumber 0) = 5
   \<and> (x \<noteq> 0 \<longrightarrow> retryAfter (HeaderNumber x) = x)"
  by (simp add: retryAfter_def)

lemma postToDiscord_bounded:
  "posts (snd (postToDiscord e a retries w)) \<le> posts w + retries + 1
   \<and> posts w < posts (snd (postToDiscord e a retries w))
   \<and> stateFile (snd (postToDiscord e a retries w)) = stateFile w"
proof (induction retries arbitrary: w)
  case 0
  show ?case by (subst (1 2 3) postToDiscord.simps) (simp split: fetch_result.splits)
next
  case (Suc n)
  show ?case
  proof (cases "webhook e (posts w)")
    case Rejected
    then show ?thesis by (simp add: postToDiscord_rejected)
  next
    case (Resolved res)
    show ?thesis
    proof (cases "status res = 429")
      case True
      let ?w = "w\<lparr>posts := posts w + 1,
            trace := trace w @ [Post a, Sleep (retryAfter (retryAfterHeader res) * 1000)]\<rparr>"
      have "postToDiscord e a (Suc n) w = postToDiscord e a n ?w"
        using postToDiscord_rate_limited[OF Resolved True, of "Suc n" a] by simp
      then show ?thesis using Suc[of ?w] by simp
    next
      case False
      then show ?thesis using Resolved
        by (cases "ok res") (simp_all add: postToDiscord_ok postToDiscord_final_failure)
    qed
  qed
qed

text \<open>
  Claim C6 asks \<open>post(article)\<close> to wait and retry on a 429. nightreign's \<open>postToDiscord\<close>
  reads a variable \<open>retries\<close> that is bound nowhere: against a webhook that answers 429 with
  \<open>Retry-After: 2\<close> it makes one request and throws a ReferenceError, without a sleep or a
  second request. arc-raiders' function, on the same webhook, sleeps 2000 ms after each of
  three requests and throws after the fourth.
\<close>

theorem nr_postToDiscord_rate_limit_throws:
  "nr_postToDiscord (rateLimited (HeaderNumber 2)) articleA (start NoFile)
     = (Some ReferenceError, \<lparr>stateFile = NoFile, gets = 0, posts = 1, trace = [Post articleA]\<rparr>)
   \<and> postToDiscord (rateLimited (HeaderNumber 2)) articleA 3 (start NoFile)
     = (Some (WebhookFailed 429),
        \<lparr>stateFile = NoFile, gets = 0, posts = 4,
           trace = [Post articleA, Sleep 2000, Post articleA, Sleep 2000, Post articleA, Sleep 2000,
                    Post articleA]\<rparr>)"
proof -
  have "postToDiscord (rateLimited (HeaderNumber 2)) articleA 3 (start NoFile)
     = (Some (WebhookFailed 429),
        \<lparr>stateFile = NoFile, gets = 0, posts = 4,
           trace = [Post articleA, Sleep 2000, Post articleA, Sleep 2000, Post articleA, Sleep 2000,
                    Post articleA]\<rparr>)"
    apply (subst postToDiscord.simps)
    apply (simp add: rateLimited_def answer_def start_def retryAfter_def ok_def)
    apply (subst postToDiscord.simps)
    apply (simp add: retryAfter_def ok_def)
    apply (subst postToDiscord.simps)
    apply (simp add: retryAfter_def ok_def)
    apply (subst postToDiscord.simps)
    apply (simp add: retryAfter_def ok_def)
    done
  then show ?thesis
    by (simp add: nr_postToDiscord_def rateLimited_def answer_def start_def)
qed

section \<open>Failure of the fetch\<close>

text \<open>
  Claim C7, amended. In arc-raiders' script, when the state file holds a state and the
  three requests for the page all fail (rejected, or answered outside 2xx),
  \<open>getLatestNewsArticles\<close> returns no article and the run ends without an exception,
  having posted nothing and left the state file as it was. In nightreign's script a
  failed request ends the run with an exception (a TypeError when rejected, \<open>HTTP
  <status>\<close> when answered outside 2xx); the state file is left as it was and nothing is
  posted.
\<close>

theorem fetch_failure_with_prior_state:
  "(loadState (stateFile w) = Inr (Some s)
      \<and> succeeded (site e (gets w)) = None \<and> succeeded (site e (gets w + 1)) = None
      \<and> succeeded (site e (gets w + 2)) = None \<longrightarrow>
        getLatestNewsArticles e w
          = (Inr [], w\<lparr>gets := gets w + 3, trace := trace w @ [Get, Sleep 2000, Get, Sleep 4000, Get]\<rparr>)
      \<and> main e w
          = (None, w\<lparr>gets := gets w + 3, trace := trace w @ [Get, Sleep 2000, Get, Sleep 4000, Get]\<rparr>))
   \<and> (site e (gets w) = Rejected \<longrightarrow>
        nr_main e w = (Some TypeError, w\<lparr>gets := gets w + 1, trace := trace w @ [Get]\<rparr>))
   \<and> (site e (gets w) = Resolved res \<and> \<not> ok res \<longrightarrow>
        nr_main e w = (Some (HttpError (status res)), w\<lparr>gets := gets w + 1, trace := trace w @ [Get]\<rparr>))"
proof (intro conjI impI)
  assume a: "loadState (stateFile w) = Inr (Some s)
      \<and> succeeded (site e (gets w)) = None \<and> succeeded (site e (gets w + 1)) = None
      \<and> succeeded (site e (gets w + 2)) = None"
  then have f: "fetchWithRetry e 3 w
      = (None, w\<lparr>gets := gets w + 3, trace := trace w @ [Get, Sleep 2000, Get, Sleep 4000, Get]\<rparr>)"
    by (simp add: fetchWithRetry_abandoned)
  then show l: "getLatestNewsArticles e w
      = (Inr [], w\<lparr>gets := gets w + 3, trace := trace w @ [Get, Sleep 2000, Get, Sleep 4000, Get]\<rparr>)"
    by (simp add: getLatestNewsArticles_def)
  have "getUnpostedArticles (stateFile w) (Inr []) = Inr ([], stateFile w)"
    using a by (simp add: getUnpostedArticles_def sort_by_published_def)
  then show "main e w
      = (None, w\<lparr>gets := gets w + 3, trace := trace w @ [Get, Sleep 2000, Get, Sleep 4000, Get]\<rparr>)"
    using l by (simp add: main_def)
next
  assume "site e (gets w) = Rejected"
  moreover obtain r where "loadLastPublished (stateFile w) = Inr r"
    using loadLastPublished_returns by blast
  ultimately show "nr_main e w = (Some TypeError, w\<lparr>gets := gets w + 1, trace := trace w @ [Get]\<rparr>)"
    by (simp add: nr_main_def nr_getLatestNewsArticles_def nr_getUnpostedArticles_def)
next
  assume "site e (gets w) = Resolved res \<and> \<not> ok res"
  moreover obtain r where "loadLastPublished (stateFile w) = Inr r"
    using loadLastPublished_returns by blast
  ultimately show "nr_main e w
      = (Some (HttpError (status res)), w\<lparr>gets := gets w + 1, trace := trace w @ [Get]\<rparr>)"
    by (simp add: nr_main_def nr_getLatestNewsArticles_def nr_getUnpostedArticles_def)
qed

text \<open>C7 as amended, against a page that answers 503 to every request and against one that
  cannot be reached.\<close>

theorem fetch_failure_with_prior_state_witness:
  "main unavailable (start (stored jan10 [''https://x/a'']))
     = (None, \<lparr>stateFile = stored jan10 [''https://x/a''], gets = 3, posts = 0,
                trace = [Get, Sleep 2000, Get, Sleep 4000, Get]\<rparr>)
   \<and> nr_main unavailable (start (nr_stored jan10))
     = (Some (HttpError 503), \<lparr>stateFile = nr_stored jan10, gets = 1, posts = 0, trace = [Get]\<rparr>)
   \<and> nr_main unreachable (start (nr_stored jan10))
     = (Some TypeError, \<lparr>stateFile = nr_stored jan10, gets = 1, posts = 0, trace = [Get]\<rparr>)"
proof -
  let ?s = "\<lparr>lastPublished = jan10, postedUrls = [''https://x/a'']\<rparr>"
  let ?r = "\<lparr>status = 503, retryAfterHeader = HeaderMissing, page = Inr []\<rparr>"
  have l: "loadState (stateFile (start (stored jan10 [''https://x/a'']))) = Inr (Some ?s)"
    by (simp add: start_def loadState_stored timestamp_def jan10_def maxTime_def)
  have n: "\<And>k. succeeded (site unavailable k) = None"
    by (simp add: unavailable_def answer_def succeeded_def ok_def)
  have r: "site unavailable (gets (start (nr_stored jan10))) = Resolved ?r \<and> \<not> ok ?r"
    by (simp add: unavailable_def answer_def ok_def)
  have j: "site unreachable (gets (start (nr_stored jan10))) = Rejected"
    by (simp add: unreachable_def)
  show ?thesis
    using fetch_failure_with_prior_state[of "start (stored jan10 [''https://x/a''])" ?s unavailable]
      fetch_failure_with_prior_state[of "start (nr_stored jan10)" _ unavailable ?r]
      fetch_failure_with_prior_state[of "start (nr_stored jan10)" _ unreachable]
      l n r j
    by (simp add: start_def)
qed

text \<open>C7 as stated fails: nightreign's run ends with an exception when the page answers
  503.\<close>

theorem fetch_failure_fatal_counterexample:
  "succeeded (site unavailable 0) = None
   \<and> fst (nr_main unavailable (start (nr_stored jan10))) = Some (HttpError 503)"
  by (simp add: succeeded_def nr_main_def nr_getLatestNewsArticles_def nr_getUnpostedArticles_def
      loadLastPublished_def loadLastPublished_try_def
      unavailable_def answer_def ok_def start_def nr_stored_def jan10_def)

end
